theory Spec2Isabelle
  imports Complex_Main "HOL-Library.Word" "HOL-Library.AList"
begin

unbundle bit_operations_syntax

section \<open>Audio capture: float samples to 16-bit PCM (App.tsx, processor.onaudioprocess)\<close>

text \<open>
  A JavaScript number read from the \<open>Float32Array\<close> returned by \<open>getChannelData\<close>.
  Every finite binary32 value is a rational; the product of a binary32 value in the
  interval from -1 to 1 with \<open>0x7FFF\<close> needs at most 39 significant bits and is therefore exact
  in binary64, so the finite case is modelled by exact rational arithmetic. The
  non-finite cases are kept apart.
\<close>

datatype js_number = Fin rat | PosInf | NegInf | NaN

text \<open>\<open>Math.min(1, x)\<close> and \<open>Math.max(-1, y)\<close>: \<open>NaN\<close> is contagious.\<close>

fun math_min_1 :: "js_number \<Rightarrow> js_number" where
  "math_min_1 NaN = NaN"
| "math_min_1 PosInf = Fin 1"
| "math_min_1 NegInf = NegInf"
| "math_min_1 (Fin r) = Fin (min 1 r)"

fun math_max_m1 :: "js_number \<Rightarrow> js_number" where
  "math_max_m1 NaN = NaN"
| "math_max_m1 PosInf = PosInf"
| "math_max_m1 NegInf = Fin (- 1)"
| "math_max_m1 (Fin r) = Fin (max (- 1) r)"

text \<open>\<open>y * 0x7FFF\<close>.\<close>

fun times_7FFF :: "js_number \<Rightarrow> js_number" where
  "times_7FFF NaN = NaN"
| "times_7FFF PosInf = PosInf"
| "times_7FFF NegInf = NegInf"
| "times_7FFF (Fin r) = Fin (r * 32767)"

text \<open>Truncation towards zero, the first step of the \<open>ToInt16\<close> conversion.\<close>

definition trunc_rat :: "rat \<Rightarrow> int" where
  "trunc_rat r = (if 0 \<le> r then \<lfloor>r\<rfloor> else - \<lfloor>- r\<rfloor>)"

text \<open>
  Storing a number into an \<open>Int16Array\<close> element applies \<open>ToInt16\<close>: non-finite values
  become 0, finite ones are truncated and reduced modulo \<open>2^16\<close>.
\<close>

fun to_int16 :: "js_number \<Rightarrow> 16 word" where
  "to_int16 (Fin r) = word_of_int (trunc_rat r)"
| "to_int16 _ = 0"

definition sample_to_pcm :: "js_number \<Rightarrow> 16 word" where
  "sample_to_pcm x = to_int16 (times_7FFF (math_max_m1 (math_min_1 x)))"

text \<open>
  The loop \<open>for (let i = 0; i < inputData.length; i++) pcmData[i] = ...\<close> over the
  zero-initialised \<open>new Int16Array(inputData.length)\<close>.
\<close>

function pcm_loop :: "js_number list \<Rightarrow> nat \<Rightarrow> 16 word list \<Rightarrow> 16 word list" where
  "pcm_loop inputData i pcmData =
     (if i < length inputData
      then pcm_loop inputData (Suc i) (pcmData[i := sample_to_pcm (inputData ! i)])
      else pcmData)"
  by pat_completeness auto
termination
  by (relation "measure (\<lambda>(inputData, i, pcmData). length inputData - i)") auto

declare pcm_loop.simps [simp del]

definition float_to_pcm :: "js_number list \<Rightarrow> 16 word list" where
  "float_to_pcm inputData = pcm_loop inputData 0 (replicate (length inputData) 0)"

text \<open>
  \<open>new Uint8Array(pcmData.buffer)\<close>: the two bytes of every sample, low byte first
  (the byte order of every platform the browsers run on).
\<close>

definition int16_bytes :: "16 word \<Rightarrow> 8 word list" where
  "int16_bytes w = [ucast (w AND 255), ucast (drop_bit 8 w)]"

definition pcm_bytes :: "16 word list \<Rightarrow> 8 word list" where
  "pcm_bytes pcmData = concat (map int16_bytes pcmData)"

text \<open>\<open>btoa(String.fromCharCode(...bytes))\<close>: standard base64 with padding.\<close>

definition b64_alphabet :: string where
  "b64_alphabet = ''ABCDEFGHIJKLMNOPQRSTUVWXYZabcdefghijklmnopqrstuvwxyz0123456789+/''"

definition b64_char :: "nat \<Rightarrow> char" where
  "b64_char n = b64_alphabet ! (n mod 64)"

fun btoa :: "8 word list \<Rightarrow> string" where
  "btoa [] = []"
| "btoa [a] =
     [b64_char (unat a div 4), b64_char ((unat a mod 4) * 16), CHR ''='', CHR ''='']"
| "btoa [a, b] =
     [b64_char (unat a div 4), b64_char ((unat a mod 4) * 16 + unat b div 16),
      b64_char ((unat b mod 16) * 4), CHR ''='']"
| "btoa (a # b # c # rest) =
     [b64_char (unat a div 4), b64_char ((unat a mod 4) * 16 + unat b div 16),
      b64_char ((unat b mod 16) * 4 + unat c div 64), b64_char (unat c mod 64)] @ btoa rest"

text \<open>The argument of \<open>sendRealtimeInput\<close>: \<open>{ media: { data, mimeType } }\<close>.\<close>

record media_payload =
  data :: string
  mimeType :: string

definition encode_block :: "js_number list \<Rightarrow> media_payload" where
  "encode_block inputData =
     \<lparr> data = btoa (pcm_bytes (float_to_pcm inputData)),
       mimeType = ''audio/pcm;rate=16000'' \<rparr>"

section \<open>Application state (App.tsx, component \<open>App\<close>)\<close>

datatype Step =
  Welcome | Login | Dashboard | BasicInfo | Interests | Discovery | Generating | Results

record UserData =
  studyTime :: string
  shortTermGoal :: string
  longTermGoal :: string
  language :: string
  interests :: "string list"
  discoveryAnswers :: "(string \<times> string) list option"

text \<open>The ids of \<open>DISCOVERY_QUESTIONS\<close>, in order.\<close>

definition DISCOVERY_QUESTION_IDS :: "string list" where
  "DISCOVERY_QUESTION_IDS = [''q1'', ''q2'', ''q3'', ''q4'', ''q5'']"

text \<open>
  A value produced by \<open>JSON.parse\<close>. The declared type of \<open>results\<close> is
  \<open>CareerOption[]\<close>, but \<open>JSON.parse\<close> returns \<open>any\<close> and nothing checks it, so the
  state holds whatever was parsed.
\<close>

datatype json =
  JNull | JBool bool | JNum rat | JStr string | JArr "json list" | JObj "(string \<times> json) list"

text \<open>The \<open>responseSchema\<close> language of the request (the part of it the request uses).\<close>

datatype schema =
  SString | SNumber | SArray schema | SObject "(string \<times> schema) list" "string list"


definition career_option_schema :: schema where
  "career_option_schema = SObject
     [(''title'', SString),
      (''matchScore'', SNumber),
      (''whyFits'', SString),
      (''technicalSkills'', SArray SString),
      (''examSubjects'', SArray SString),
      (''physicalEligibility'', SString),
      (''softSkills'', SArray SString),
      (''competitionLevel'', SString),
      (''roadmap'', SObject
         [(''day30'', SString), (''day60'', SString), (''day90'', SString)]
         [''day30'', ''day60'', ''day90'']),
      (''learningResources'', SArray (SObject
         [(''name'', SString), (''url'', SString), (''description'', SString)]
         [''name'', ''url'', ''description''])),
      (''jobReadinessTime'', SString)]
     [''title'', ''matchScore'', ''whyFits'', ''softSkills'', ''roadmap'',
      ''learningResources'', ''jobReadinessTime'']"

definition career_schema :: schema where
  "career_schema = SArray career_option_schema"

text \<open>
  The request of \<open>ai.models.generateContent\<close>: the model, the profile the prompt is
  built from (the prompt text itself is not modelled), and from its \<open>config\<close> the
  response MIME type and the response schema.
\<close>

record generate_request =
  request_model :: string
  request_profile :: UserData
  request_responseMimeType :: string
  request_responseSchema :: schema

text \<open>
  An inbound message of the live connection, as far as the handler reads it:
  \<open>message.serverContent?.modelTurn?.parts?.[0]?.text\<close>.
\<close>

record part =
  part_text :: "string option"

record model_turn =
  parts :: "part list option"

record server_content =
  modelTurn :: "model_turn option"

record live_message =
  serverContent :: "server_content option"

text \<open>
  Connections are numbered in the order of the calls of \<open>ai.live.connect\<close>; a
  \<open>LiveSession\<close> object is identified with the number of its connection.
\<close>

type_synonym handle = nat

text \<open>
  The React state of \<open>App\<close> (the first eight fields) and the part of the browser the
  live session touches: the number of connections opened, the connections whose
  \<open>connect\<close> promise has resolved (so that the \<open>const liveSession\<close> of that call is
  initialised), the calls of \<open>close()\<close>, the pending \<open>getUserMedia\<close> requests, the
  capture pipelines built (microphone stream, \<open>AudioContext\<close>, script processor; each
  sends to the connection whose \<open>onopen\<close> built it), the calls of
  \<open>sendRealtimeInput\<close> in order, the \<open>console.error\<close> log, the errors nothing
  catches, the roadmap requests sent, and how many of them have settled.
\<close>

record app =
  step :: Step
  userData :: UserData
  discoveryIndex :: nat
  results :: json
  isGenerating :: bool
  isLiveActive :: bool
  liveTranscript :: string
  session :: "handle option"
  connects :: nat
  resolved :: "handle list"
  closeCalls :: "handle list"
  mediaRequests :: "handle list"
  pipelines :: "handle list"
  sent :: "(handle \<times> media_payload) list"
  console :: "string list"
  uncaught :: "string list"
  genRequests :: "generate_request list"
  genSettled :: nat

definition initial_app :: app where
  "initial_app =
     \<lparr> step = Welcome,
       userData = \<lparr> studyTime = ''2 hours'', shortTermGoal = [], longTermGoal = [],
                    language = ''English'', interests = [], discoveryAnswers = None \<rparr>,
       discoveryIndex = 0,
       results = JArr [],
       isGenerating = False,
       isLiveActive = False,
       liveTranscript = [],
       session = None,
       connects = 0, resolved = [], closeCalls = [], mediaRequests = [], pipelines = [],
       sent = [], console = [], uncaught = [], genRequests = [], genSettled = 0 \<rparr>"

section \<open>Roadmap generation (App.tsx, \<open>generateCareerRoadmap\<close> and \<open>handleGenerate\<close>)\<close>


datatype gen_error = RequestFailed | SyntaxError


text \<open>The request that \<open>generateCareerRoadmap\<close> sends for a profile.\<close>

definition roadmap_request :: "UserData \<Rightarrow> generate_request" where
  "roadmap_request ud =
     \<lparr> request_model = ''gemini-3-flash-preview'',
       request_profile = ud,
       request_responseMimeType = ''application/json'',
       request_responseSchema = career_schema \<rparr>"

text \<open>
  \<open>handleGenerate\<close> up to its \<open>await\<close>. The profile sent is the \<open>userData\<close> of the
  render in which the handler was created, passed here as \<open>ud\<close>.
\<close>

definition handleGenerate :: "UserData \<Rightarrow> app \<Rightarrow> app" where
  "handleGenerate ud s =
     s\<lparr> step := Generating, isGenerating := True,
        genRequests := genRequests s @ [roadmap_request ud] \<rparr>"

section \<open>The results view (App.tsx, the JSX under \<open>step === 'results'\<close>)\<close>

text \<open>
  The results view reads the stored value as a \<open>CareerOption[]\<close> without checking it.
  The component's own expressions throw a \<open>TypeError\<close> where they read a property of
  \<open>null\<close> or \<open>undefined\<close>, or call \<open>.map\<close> on a value that is not an array. Where a
  value of an unexpected kind reaches React, ReactMarkdown or a coercion of JavaScript
  (an array or an object where text is rendered, an object where an array of skills is
  expected, a milestone that is not a string), what happens is decided there and not
  by this file: the verdict is \<open>Unmodelled\<close>.
\<close>

datatype render_verdict = Renders | Throws | Unmodelled

text \<open>A render throws as soon as one of its expressions throws.\<close>

definition combine :: "render_verdict list \<Rightarrow> render_verdict" where
  "combine vs =
     (if Throws \<in> set vs then Throws
      else if Unmodelled \<in> set vs then Unmodelled
      else Renders)"

text \<open>
  \<open>o.p\<close> for a value \<open>o\<close> that is not \<open>null\<close> and a property \<open>p\<close> other than
  \<open>length\<close> and \<open>map\<close>: the property of an object, \<open>undefined\<close> (here \<open>None\<close>) on an
  array, a string, a number or a boolean.
\<close>

definition js_get :: "json \<Rightarrow> string \<Rightarrow> json option" where
  "js_get obj p = (case obj of JObj flds \<Rightarrow> map_of flds p | _ \<Rightarrow> None)"

text \<open>\<open>{v}\<close> as the content of an element, or as its \<open>href\<close>.\<close>

definition render_child :: "json option \<Rightarrow> render_verdict" where
  "render_child v =
     (case v of
        None \<Rightarrow> Renders
      | Some (JArr _) \<Rightarrow> Unmodelled
      | Some (JObj _) \<Rightarrow> Unmodelled
      | Some _ \<Rightarrow> Renders)"

text \<open>\<open>v.map(skill => <span key={skill}>{skill}</span>)\<close>\<close>

definition render_skill_list :: "json option \<Rightarrow> render_verdict" where
  "render_skill_list v =
     (case v of
        Some (JArr skills) \<Rightarrow> combine (map (\<lambda>skill. render_child (Some skill)) skills)
      | _ \<Rightarrow> Throws)"

text \<open>
  \<open>{v && v.length > 0 && (... v.map(...) ...)}\<close>: a falsy \<open>v\<close> is rendered itself; a
  number or \<open>true\<close> has no \<open>length\<close>, so \<open>false\<close> is rendered; a non-empty string has a
  positive \<open>length\<close> and no \<open>map\<close>.
\<close>

definition render_optional_skills :: "json option \<Rightarrow> render_verdict" where
  "render_optional_skills v =
     (case v of
        None \<Rightarrow> Renders
      | Some JNull \<Rightarrow> Renders
      | Some (JBool _) \<Rightarrow> Renders
      | Some (JNum _) \<Rightarrow> Renders
      | Some (JStr str) \<Rightarrow> if str = [] then Renders else Throws
      | Some (JArr skills) \<Rightarrow> combine (map (\<lambda>skill. render_child (Some skill)) skills)
      | Some (JObj _) \<Rightarrow> Unmodelled)"

text \<open>One element of \<open>option.learningResources.map((res, i) => ...)\<close>.\<close>

definition render_resource :: "json \<Rightarrow> render_verdict" where
  "render_resource res =
     (case res of
        JNull \<Rightarrow> Throws
      | _ \<Rightarrow> combine [render_child (js_get res ''url''), render_child (js_get res ''name''),
                       render_child (js_get res ''description'')])"

text \<open>\<open><ReactMarkdown>{milestone.content}</ReactMarkdown>\<close>\<close>

definition render_markdown :: "json option \<Rightarrow> render_verdict" where
  "render_markdown v =
     (case v of
        None \<Rightarrow> Renders
      | Some JNull \<Rightarrow> Renders
      | Some (JStr _) \<Rightarrow> Renders
      | Some _ \<Rightarrow> Unmodelled)"

text \<open>The three milestones: \<open>option.roadmap.day30\<close>, \<open>.day60\<close>, \<open>.day90\<close>.\<close>

definition render_roadmap :: "json option \<Rightarrow> render_verdict" where
  "render_roadmap v =
     (case v of
        None \<Rightarrow> Throws
      | Some JNull \<Rightarrow> Throws
      | Some roadmap \<Rightarrow>
          combine (map (\<lambda>day. render_markdown (js_get roadmap day)) [''day30'', ''day60'', ''day90'']))"

text \<open>The body of \<open>results.map((option, idx) => ...)\<close>.\<close>

definition render_option :: "json \<Rightarrow> render_verdict" where
  "render_option option =
     (case option of
        JNull \<Rightarrow> Throws
      | _ \<Rightarrow>
          combine
            [render_child (js_get option ''title''),
             render_child (js_get option ''matchScore''),
             render_child (js_get option ''whyFits''),
             render_optional_skills (js_get option ''technicalSkills''),
             render_optional_skills (js_get option ''examSubjects''),
             render_skill_list (js_get option ''softSkills''),
             render_child (js_get option ''physicalEligibility''),
             render_child (js_get option ''jobReadinessTime''),
             render_child (js_get option ''competitionLevel''),
             (case js_get option ''learningResources'' of
                Some (JArr resources) \<Rightarrow> combine (map render_resource resources)
              | _ \<Rightarrow> Throws),
             render_roadmap (js_get option ''roadmap'')])"

text \<open>\<open>results.length\<close> and \<open>results.map(...)\<close>.\<close>

definition render_results :: "json \<Rightarrow> render_verdict" where
  "render_results d =
     (case d of JArr options \<Rightarrow> combine (map render_option options) | _ \<Rightarrow> Throws)"

text \<open>
  \<open>handleGenerate\<close> after the \<open>await\<close>: the \<open>try\<close>, \<open>catch\<close> and \<open>finally\<close> blocks, and
  on success the render of the results view that the updates cause. The updates of one
  settlement are applied together (the root that the entry point creates is not among
  the sources; a root of React 18 or later is assumed). An error of the render is
  caught by nothing: it is recorded among the uncaught errors, and the state stays as
  it was set. React then takes the component off the page; that is not followed here,
  and later events are still accepted. \<open>threw\<close> tells whether the render threw
  where the verdict is \<open>Unmodelled\<close>.
\<close>

definition handleGenerate_settled :: "gen_error + json \<Rightarrow> bool \<Rightarrow> app \<Rightarrow> app" where
  "handleGenerate_settled r threw s =
     (case r of
        Inr d \<Rightarrow>
          (let s1 = s\<lparr> results := d, step := Results, isGenerating := False \<rparr>
           in case render_results d of
                Renders \<Rightarrow> s1
              | Throws \<Rightarrow> s1\<lparr> uncaught := uncaught s1 @ [''TypeError''] \<rparr>
              | Unmodelled \<Rightarrow>
                  if threw then s1\<lparr> uncaught := uncaught s1 @ [''render error''] \<rparr> else s1)
      | Inl e \<Rightarrow> s\<lparr> console := console s @ [''Failed to generate roadmap:''],
                      step := Interests, isGenerating := False \<rparr>)"

section \<open>Live API logic (App.tsx, \<open>startLiveSession\<close> and \<open>stopLiveSession\<close>)\<close>

definition banner :: string where
  "banner = ''Connected! Start speaking...''"

text \<open>
  \<open>startLiveSession\<close> up to its \<open>await\<close>: the call of \<open>ai.live.connect\<close>. No state is
  read or tested before the call.
\<close>

definition startLiveSession :: "app \<Rightarrow> app" where
  "startLiveSession s = s\<lparr> connects := Suc (connects s) \<rparr>"

text \<open>After the \<open>await\<close>: \<open>setSession(liveSession)\<close>.\<close>

definition connect_resolved :: "handle \<Rightarrow> app \<Rightarrow> app" where
  "connect_resolved h s = s\<lparr> session := Some h, resolved := resolved s @ [h] \<rparr>"

text \<open>The \<open>catch\<close> block: \<open>console.error\<close> and nothing else.\<close>

definition connect_rejected :: "app \<Rightarrow> app" where
  "connect_rejected s = s\<lparr> console := console s @ [''Failed to connect to Live API:''] \<rparr>"

text \<open>The callback \<open>onopen\<close>, up to the call of \<open>getUserMedia\<close>.\<close>

definition onopen :: "handle \<Rightarrow> app \<Rightarrow> app" where
  "onopen h s =
     s\<lparr> isLiveActive := True, liveTranscript := banner,
        mediaRequests := mediaRequests s @ [h] \<rparr>"

text \<open>
  The \<open>then\<close> callback of \<open>getUserMedia\<close>: the audio context, the source and the
  script processor are created and connected. The promise has no rejection handler.
\<close>

definition media_granted :: "handle \<Rightarrow> app \<Rightarrow> app" where
  "media_granted h s =
     s\<lparr> mediaRequests := remove1 h (mediaRequests s), pipelines := pipelines s @ [h] \<rparr>"

definition media_denied :: "handle \<Rightarrow> app \<Rightarrow> app" where
  "media_denied h s =
     s\<lparr> mediaRequests := remove1 h (mediaRequests s),
        uncaught := uncaught s @ [''getUserMedia rejected''] \<rparr>"

text \<open>
  \<open>processor.onaudioprocess\<close> of a pipeline built for connection \<open>h\<close>: one block is
  converted, encoded and passed to \<open>liveSession.sendRealtimeInput\<close>. The
  \<open>const liveSession\<close> it reads is initialised only once \<open>connect\<close> has resolved; before
  that the read throws.
\<close>

definition onaudioprocess :: "handle \<Rightarrow> js_number list \<Rightarrow> app \<Rightarrow> app" where
  "onaudioprocess h inputData s =
     (if h \<in> set (resolved s)
      then s\<lparr> sent := sent s @ [(h, encode_block inputData)] \<rparr>
      else s\<lparr> uncaught := uncaught s @ [''ReferenceError''] \<rparr>)"

text \<open>The value of \<open>message.serverContent?.modelTurn?.parts?.[0]?.text\<close>.\<close>

definition first_part_text :: "live_message \<Rightarrow> string option" where
  "first_part_text m =
     (case serverContent m of
        None \<Rightarrow> None
      | Some sc \<Rightarrow>
          (case modelTurn sc of
             None \<Rightarrow> None
           | Some mt \<Rightarrow>
               (case parts mt of
                  None \<Rightarrow> None
                | Some ps \<Rightarrow> (case ps of [] \<Rightarrow> None | p # _ \<Rightarrow> part_text p))))"

text \<open>
  The callback \<open>onmessage\<close>. The test is JavaScript truthiness: an undefined text and
  the empty string both fail it.
\<close>

definition onmessage :: "live_message \<Rightarrow> app \<Rightarrow> app" where
  "onmessage m s =
     (case first_part_text m of
        None \<Rightarrow> s
      | Some t \<Rightarrow>
          if t \<noteq> [] then s\<lparr> liveTranscript := liveTranscript s @ [CHR 0x0A] @ t \<rparr> else s)"

definition onclose :: "app \<Rightarrow> app" where
  "onclose s = s\<lparr> isLiveActive := False, session := None \<rparr>"

definition onerror :: "app \<Rightarrow> app" where
  "onerror s = s\<lparr> console := console s @ [''Live API Error:''], isLiveActive := False \<rparr>"

text \<open>\<open>session?.close(); setIsLiveActive(false);\<close>\<close>

definition stopLiveSession :: "app \<Rightarrow> app" where
  "stopLiveSession s =
     (let s1 = (case session s of
                  None \<Rightarrow> s
                | Some h \<Rightarrow> s\<lparr> closeCalls := closeCalls s @ [h] \<rparr>)
      in s1\<lparr> isLiveActive := False \<rparr>)"

section \<open>Wizard navigation (App.tsx, \<open>handleNext\<close>, \<open>handleBack\<close> and the other handlers)\<close>

definition handleNext :: "app \<Rightarrow> app" where
  "handleNext s =
     (if step s = Welcome then s\<lparr> step := Login \<rparr>
      else if step s = Login then s\<lparr> step := Dashboard \<rparr>
      else if step s = Dashboard then s\<lparr> step := BasicInfo \<rparr>
      else if step s = BasicInfo then s\<lparr> step := Interests \<rparr>
      else if step s = Interests then
        (if interests (userData s) \<noteq> [] then handleGenerate (userData s) s
         else s\<lparr> step := Discovery \<rparr>)
      else s)"

definition handleBack :: "app \<Rightarrow> app" where
  "handleBack s =
     (if step s = Login then s\<lparr> step := Welcome \<rparr>
      else if step s = Dashboard then s\<lparr> step := Login \<rparr>
      else if step s = BasicInfo then s\<lparr> step := Dashboard \<rparr>
      else if step s = Interests then s\<lparr> step := BasicInfo \<rparr>
      else if step s = Discovery then
        (if 0 < discoveryIndex s then s\<lparr> discoveryIndex := discoveryIndex s - 1 \<rparr>
         else s\<lparr> step := Interests \<rparr>)
      else if step s = Results then s\<lparr> step := Interests \<rparr>
      else s)"

definition toggleInterest :: "string \<Rightarrow> app \<Rightarrow> app" where
  "toggleInterest interest s =
     s\<lparr> userData := (userData s)\<lparr> interests :=
         (if interest \<in> set (interests (userData s))
          then filter (\<lambda>i. i \<noteq> interest) (interests (userData s))
          else interests (userData s) @ [interest]) \<rparr> \<rparr>"

text \<open>
  \<open>handleDiscoveryAnswer\<close>. Reading \<open>.id\<close> of a question beyond the table throws. The
  call of \<open>handleGenerate\<close> after the last question belongs to the render before the
  update, so the request carries the profile without this answer.
\<close>

definition handleDiscoveryAnswer :: "string \<Rightarrow> app \<Rightarrow> app" where
  "handleDiscoveryAnswer answer s =
     (if discoveryIndex s < length DISCOVERY_QUESTION_IDS then
        (let qId = DISCOVERY_QUESTION_IDS ! discoveryIndex s;
             prev = (case discoveryAnswers (userData s) of None \<Rightarrow> [] | Some a \<Rightarrow> a);
             s1 = s\<lparr> userData := (userData s)\<lparr> discoveryAnswers :=
                       Some (AList.update qId answer prev) \<rparr> \<rparr>
         in if discoveryIndex s < length DISCOVERY_QUESTION_IDS - 1
            then s1\<lparr> discoveryIndex := discoveryIndex s + 1 \<rparr>
            else handleGenerate (userData s) s1)
      else s\<lparr> uncaught := uncaught s @ [''TypeError''] \<rparr>)"

section \<open>Events\<close>

text \<open>
  Everything that can happen to the component: a click on a control (which has an
  effect only where the control is rendered and enabled; the string it carries is the
  one the control offers), an edit of the profile form, a callback of a live
  connection, the settling of a promise, an audio block delivered to the script
  processor of a pipeline (given by its position among the pipelines). A roadmap
  request settles once for every call of \<open>handleGenerate\<close>, whatever the state is by
  then; the event tells as well whether the render that followed threw, which is read
  only where the component's own code does not decide it.
\<close>

datatype event =
    ClickLogo
  | ClickNext
  | ClickBack
  | ClickStartQuiz
  | ClickGenerate
  | ClickStartOver
  | ClickInterest string
  | ClickAnswer string
  | PickStudyTime string
  | EditShortTermGoal string
  | EditLongTermGoal string
  | EditLanguage string
  | ClickVoiceToggle
  | ClickPanelClose
  | ConnectResolved handle
  | ConnectRejected handle
  | OnOpen handle
  | OnMessage handle live_message
  | OnClose handle
  | OnError handle
  | MediaGranted handle
  | MediaDenied handle
  | AudioProcess nat "js_number list"
  | GenerateSettled "gen_error + json" bool

text \<open>The header button is rendered under \<open>step !== 'welcome' && step !== 'generating'\<close>.\<close>

definition toggle_rendered :: "app \<Rightarrow> bool" where
  "toggle_rendered s = (step s \<noteq> Welcome \<and> step s \<noteq> Generating)"

fun fire :: "event \<Rightarrow> app \<Rightarrow> app" where
  "fire ClickLogo s = s\<lparr> step := Welcome \<rparr>"
| "fire ClickNext s =
     (if step s = Welcome \<or> step s = Login \<or> step s = Dashboard \<or>
         (step s = BasicInfo \<and> shortTermGoal (userData s) \<noteq> [] \<and> longTermGoal (userData s) \<noteq> [])
      then handleNext s else s)"
| "fire ClickBack s =
     (if step s = BasicInfo \<or> step s = Interests \<or> step s = Discovery
      then handleBack s else s)"
| "fire ClickStartQuiz s = (if step s = Interests then s\<lparr> step := Discovery \<rparr> else s)"
| "fire ClickGenerate s =
     (if step s = Interests \<and> interests (userData s) \<noteq> []
      then handleGenerate (userData s) s else s)"
| "fire ClickStartOver s = (if step s = Results then s\<lparr> step := Interests \<rparr> else s)"
| "fire (ClickInterest i) s = (if step s = Interests then toggleInterest i s else s)"
| "fire (ClickAnswer a) s = (if step s = Discovery then handleDiscoveryAnswer a s else s)"
| "fire (PickStudyTime t) s =
     (if step s = BasicInfo then s\<lparr> userData := (userData s)\<lparr> studyTime := t \<rparr> \<rparr> else s)"
| "fire (EditShortTermGoal t) s =
     (if step s = BasicInfo then s\<lparr> userData := (userData s)\<lparr> shortTermGoal := t \<rparr> \<rparr> else s)"
| "fire (EditLongTermGoal t) s =
     (if step s = BasicInfo then s\<lparr> userData := (userData s)\<lparr> longTermGoal := t \<rparr> \<rparr> else s)"
| "fire (EditLanguage t) s =
     (if step s = BasicInfo then s\<lparr> userData := (userData s)\<lparr> language := t \<rparr> \<rparr> else s)"
| "fire ClickVoiceToggle s =
     (if toggle_rendered s
      then (if isLiveActive s then stopLiveSession s else startLiveSession s)
      else s)"
| "fire ClickPanelClose s = (if isLiveActive s then stopLiveSession s else s)"
| "fire (ConnectResolved h) s =
     (if h < connects s \<and> h \<notin> set (resolved s) then connect_resolved h s else s)"
| "fire (ConnectRejected h) s =
     (if h < connects s \<and> h \<notin> set (resolved s) then connect_rejected s else s)"
| "fire (OnOpen h) s = (if h < connects s then onopen h s else s)"
| "fire (OnMessage h m) s = (if h < connects s then onmessage m s else s)"
| "fire (OnClose h) s = (if h < connects s then onclose s else s)"
| "fire (OnError h) s = (if h < connects s then onerror s else s)"
| "fire (MediaGranted h) s = (if h \<in> set (mediaRequests s) then media_granted h s else s)"
| "fire (MediaDenied h) s = (if h \<in> set (mediaRequests s) then media_denied h s else s)"
| "fire (AudioProcess p inputData) s =
     (if p < length (pipelines s) then onaudioprocess (pipelines s ! p) inputData s else s)"
| "fire (GenerateSettled r threw) s =
     (if genSettled s < length (genRequests s)
      then handleGenerate_settled r threw (s\<lparr> genSettled := Suc (genSettled s) \<rparr>)
      else s)"

fun run :: "event list \<Rightarrow> app \<Rightarrow> app" where
  "run [] s = s"
| "run (e # es) s = run es (fire e s)"

section \<open>Observations used to state the properties\<close>

text \<open>The eight \<open>useState\<close> values of the component: all that a render can show.\<close>

definition react_state ::
  "app \<Rightarrow> Step \<times> UserData \<times> nat \<times> json \<times> bool \<times> bool \<times> string \<times> handle option" where
  "react_state s =
     (step s, userData s, discoveryIndex s, results s, isGenerating s, isLiveActive s,
      liveTranscript s, session s)"

text \<open>A message whose model turn has one text part for every string given.\<close>

definition text_message :: "string list \<Rightarrow> live_message" where
  "text_message ts =
     \<lparr> serverContent = Some \<lparr> modelTurn = Some
         \<lparr> parts = Some (map (\<lambda>t. \<lparr> part_text = Some t \<rparr>) ts) \<rparr> \<rparr> \<rparr>"

text \<open>A message whose model turn has one part for every entry, with or without text.\<close>

definition parts_message :: "string option list \<Rightarrow> live_message" where
  "parts_message ps =
     \<lparr> serverContent = Some \<lparr> modelTurn = Some
         \<lparr> parts = Some (map (\<lambda>p. \<lparr> part_text = p \<rparr>) ps) \<rparr> \<rparr> \<rparr>"



text \<open>
  The transcript is one string, rendered with \<open>whitespace-pre-wrap\<close>: its entries on
  screen are its lines, \<open>liveTranscript.split("\n")\<close>.
\<close>

fun split_lines :: "string \<Rightarrow> string list" where
  "split_lines [] = [[]]"
| "split_lines (c # cs) =
     (if c = CHR 0x0A then [] # split_lines cs
      else (case split_lines cs of [] \<Rightarrow> [[c]] | l # ls \<Rightarrow> (c # l) # ls))"

section \<open>Properties of the PCM conversion\<close>

lemma pcm_loop_eq:
  "i \<le> length inputData \<Longrightarrow> length pcmData = length inputData \<Longrightarrow>
   pcm_loop inputData i pcmData = take i pcmData @ map sample_to_pcm (drop i inputData)"
proof (induction inputData i pcmData rule: pcm_loop.induct)
  case (1 inputData i pcmData)
  show ?case
  proof (cases "i < length inputData")
    case True
    let ?v = "sample_to_pcm (inputData ! i)"
    have len: "length (pcmData[i := ?v]) = length inputData"
      using "1.prems" by simp
    have "pcm_loop inputData i pcmData = pcm_loop inputData (Suc i) (pcmData[i := ?v])"
      using True by (subst pcm_loop.simps) simp
    also have "\<dots> = take (Suc i) (pcmData[i := ?v]) @ map sample_to_pcm (drop (Suc i) inputData)"
      using "1.IH" [OF True _ len] True by simp
    also have "take (Suc i) (pcmData[i := ?v]) = take i pcmData @ [?v]"
      using True "1.prems" by (simp add: take_Suc_conv_app_nth)
    finally show ?thesis
      using True by (simp add: Cons_nth_drop_Suc [symmetric])
  next
    case False
    with "1.prems" show ?thesis
      by (subst pcm_loop.simps) simp
  qed
qed

lemma float_to_pcm_map: "float_to_pcm inputData = map sample_to_pcm inputData"
  by (simp add: float_to_pcm_def pcm_loop_eq)

lemma trunc_rat_bounds:
  assumes "- 32767 \<le> r" "r \<le> 32767"
  shows "- 32767 \<le> trunc_rat r \<and> trunc_rat r \<le> 32767"
proof (cases "0 \<le> r")
  case True
  have "0 \<le> \<lfloor>r\<rfloor>"
    using True by simp
  moreover have "\<lfloor>r\<rfloor> \<le> 32767"
    using assms(2) by (simp add: floor_le_iff)
  moreover have "trunc_rat r = \<lfloor>r\<rfloor>"
    using True by (simp add: trunc_rat_def)
  ultimately show ?thesis
    by linarith
next
  case False
  have "0 \<le> \<lfloor>- r\<rfloor>"
    using False by simp
  moreover have "\<lfloor>- r\<rfloor> \<le> 32767"
    using assms(1) by (simp add: floor_le_iff)
  moreover have "trunc_rat r = - \<lfloor>- r\<rfloor>"
    using False by (simp add: trunc_rat_def)
  ultimately show ?thesis
    by linarith
qed

lemma sint_int16: "- 32768 \<le> n \<Longrightarrow> n \<le> 32767 \<Longrightarrow> sint (word_of_int n :: 16 word) = n"
  by (simp add: sint_sbintrunc' signed_take_bit_int_eq_self)

lemma clamp_scaled_bounds:
  "- 32767 \<le> max (- 1) (min 1 r) * (32767 :: rat) \<and> max (- 1) (min 1 r) * 32767 \<le> 32767"
  by (auto simp: max_def min_def)

lemma sint_sample_to_pcm:
  "sint (sample_to_pcm x) =
     (case x of
        Fin r \<Rightarrow> trunc_rat (max (- 1) (min 1 r) * 32767)
      | PosInf \<Rightarrow> 32767
      | NegInf \<Rightarrow> - 32767
      | NaN \<Rightarrow> 0)"
proof (cases x)
  case (Fin r)
  have "sint (word_of_int (trunc_rat (max (- 1) (min 1 r) * 32767)) :: 16 word)
        = trunc_rat (max (- 1) (min 1 r) * 32767)"
    using trunc_rat_bounds [OF conjunct1 [OF clamp_scaled_bounds] conjunct2 [OF clamp_scaled_bounds], of r]
    by (intro sint_int16) auto
  with Fin show ?thesis by (simp add: sample_to_pcm_def)
qed (simp_all add: sample_to_pcm_def trunc_rat_def sint_int16)

lemma sint_sample_to_pcm_range:
  "- 32767 \<le> sint (sample_to_pcm x) \<and> sint (sample_to_pcm x) \<le> 32767"
  using trunc_rat_bounds [OF conjunct1 [OF clamp_scaled_bounds] conjunct2 [OF clamp_scaled_bounds]]
  by (cases x) (simp_all add: sint_sample_to_pcm)

text \<open>
  C5. The PCM conversion is a function of the sample block alone. It keeps the length
  of the block, converts sample by sample, and every stored value is the truncation of
  the sample clamped to the interval from -1 to 1 and multiplied by \<open>0x7FFF\<close>; the
  16-bit store never wraps, so every output lies in the signed 16-bit range, also for
  samples at and beyond the boundary, for infinities and for \<open>NaN\<close>.
\<close>

theorem pcm_conversion_in_int16_range:
  "length (float_to_pcm block) = length block \<and>
   (\<forall>i<length block.
      float_to_pcm block ! i = sample_to_pcm (block ! i) \<and>
      sint (float_to_pcm block ! i) =
        (case block ! i of
           Fin r \<Rightarrow> trunc_rat (max (- 1) (min 1 r) * 32767)
         | PosInf \<Rightarrow> 32767
         | NegInf \<Rightarrow> - 32767
         | NaN \<Rightarrow> 0) \<and>
      - 32768 \<le> sint (float_to_pcm block ! i) \<and> sint (float_to_pcm block ! i) \<le> 32767)"
proof -
  have "- 32768 \<le> sint (sample_to_pcm x) \<and> sint (sample_to_pcm x) \<le> 32767" for x
    using sint_sample_to_pcm_range [of x] by linarith
  then show ?thesis
    by (simp add: float_to_pcm_map sint_sample_to_pcm)
qed

theorem pcm_conversion_in_int16_range_witness:
  "length (float_to_pcm [Fin (3 / 2), Fin (- 1 / 3), NaN]) = 3 \<and>
   sint (float_to_pcm [Fin (3 / 2), Fin (- 1 / 3), NaN] ! 0) = 32767 \<and>
   sint (float_to_pcm [Fin (3 / 2), Fin (- 1 / 3), NaN] ! 1) = - 10922"
proof -
  let ?b = "[Fin (3 / 2), Fin (- 1 / 3), NaN]"
  note t = pcm_conversion_in_int16_range [of ?b]
  have i0: "0 < length ?b" and i1: "1 < length ?b" by simp_all
  have e0: "trunc_rat (max (- 1) (min 1 (3 / 2)) * 32767) = 32767"
    by code_simp
  have e1: "trunc_rat (max (- 1) (min 1 (- 1 / 3)) * 32767) = - 10922"
    by code_simp
  have "sint (float_to_pcm ?b ! 0) = 32767"
    using t [THEN conjunct2, rule_format, OF i0, THEN conjunct2, THEN conjunct1] e0 by simp
  moreover have "sint (float_to_pcm ?b ! 1) = - 10922"
    using t [THEN conjunct2, rule_format, OF i1, THEN conjunct2, THEN conjunct1] e1 by simp
  moreover have "length (float_to_pcm ?b) = 3"
    using t [THEN conjunct1] by simp
  ultimately show ?thesis
    by simp
qed

section \<open>Properties of the transcript\<close>

lemma split_lines_not_Nil: "split_lines cs \<noteq> []"
  by (induction cs) (auto split: list.splits)

lemma split_lines_no_newline: "CHR 0x0A \<notin> set t \<Longrightarrow> split_lines t = [t]"
  by (induction t) auto

lemma split_lines_append:
  "split_lines (xs @ CHR 0x0A # t) = split_lines xs @ split_lines t"
proof (induction xs)
  case Nil
  show ?case by simp
next
  case (Cons c xs)
  obtain l ls where "split_lines xs = l # ls"
    using split_lines_not_Nil [of xs] by (cases "split_lines xs") auto
  with Cons show ?case by simp
qed

lemma first_part_text_text_message:
  "first_part_text (text_message ts) = (case ts of [] \<Rightarrow> None | t # _ \<Rightarrow> Some t)"
  by (simp add: first_part_text_def text_message_def split: list.splits)

text \<open>What one message adds to the transcript.\<close>

lemma liveTranscript_onmessage:
  "liveTranscript (onmessage m s) =
     liveTranscript s @
       (case first_part_text m of
          None \<Rightarrow> []
        | Some t \<Rightarrow> if t \<noteq> [] then CHR 0x0A # t else [])"
  by (simp add: onmessage_def split: option.splits)

lemma connects_onmessage: "connects (onmessage m s) = connects s"
  by (simp add: onmessage_def split: option.splits)

lemma liveTranscript_run_OnMessage:
  "h < connects s \<Longrightarrow>
   liveTranscript (run (map (OnMessage h) ms) s) =
     liveTranscript s @
       concat (map (\<lambda>t. CHR 0x0A # t) (filter (\<lambda>t. t \<noteq> []) (List.map_filter first_part_text ms)))"
proof (induction ms arbitrary: s)
  case Nil
  show ?case by (simp add: map_filter_simps)
next
  case (Cons m ms)
  have "h < connects (onmessage m s)"
    using Cons.prems by (simp add: connects_onmessage)
  from Cons.IH [OF this] Cons.prems show ?case
    by (simp add: liveTranscript_onmessage map_filter_simps split: option.splits)
qed

lemma split_lines_deltas:
  "\<forall>t\<in>set ts. CHR 0x0A \<notin> set t \<Longrightarrow>
   split_lines (tr @ concat (map (\<lambda>t. CHR 0x0A # t) ts)) = split_lines tr @ ts"
proof (induction ts arbitrary: tr)
  case Nil
  show ?case by simp
next
  case (Cons t ts)
  have "split_lines ((tr @ CHR 0x0A # t) @ concat (map (\<lambda>t. CHR 0x0A # t) ts))
        = split_lines (tr @ CHR 0x0A # t) @ ts"
    using Cons.prems by (intro Cons.IH) simp
  moreover have "split_lines (tr @ CHR 0x0A # t) = split_lines tr @ [t]"
    using Cons.prems by (simp add: split_lines_append split_lines_no_newline)
  ultimately show ?case by simp
qed

lemma map_filter_text_messages:
  "List.map_filter first_part_text (map (\<lambda>t. text_message [t]) ts) = ts"
  by (induction ts) (simp_all add: map_filter_simps first_part_text_text_message)

text \<open>
  C4, as stated, fails: the transcript is not a list holding one entry per delta. After
  the connection has opened and the deltas \<open>Hi\<close>, \<open> there\<close> and \<open>!\<close> have arrived it is
  the single string below, whose lines are the banner and the three deltas.
\<close>

theorem three_deltas_counterexample:
  "liveTranscript
     (run [ClickNext, ClickVoiceToggle, ConnectResolved 0, OnOpen 0,
           OnMessage 0 (text_message [''Hi'']), OnMessage 0 (text_message ['' there'']),
           OnMessage 0 (text_message [''!''])] initial_app)
     = ''Connected! Start speaking...'' @ [CHR 0x0A] @ ''Hi'' @ [CHR 0x0A] @ '' there'' @ [CHR 0x0A] @ ''!'' \<and>
   split_lines (liveTranscript
     (run [ClickNext, ClickVoiceToggle, ConnectResolved 0, OnOpen 0,
           OnMessage 0 (text_message [''Hi'']), OnMessage 0 (text_message ['' there'']),
           OnMessage 0 (text_message [''!''])] initial_app))
     = [''Connected! Start speaking...'', ''Hi'', '' there'', ''!''] \<and>
   split_lines (liveTranscript
     (run [ClickNext, ClickVoiceToggle, ConnectResolved 0, OnOpen 0,
           OnMessage 0 (text_message [''Hi'']), OnMessage 0 (text_message ['' there'']),
           OnMessage 0 (text_message [''!''])] initial_app))
     \<noteq> [''Hi'', '' there'', ''!'']"
  by code_simp

text \<open>
  C4, amended. The messages of a connection extend the transcript string in arrival
  order: each message whose first part carries a non-empty text appends a line feed and
  that text; a message without such a text appends nothing, and parts after the first
  are not read. For deltas that are non-empty and free of line feeds, the lines of the
  transcript are the lines it had, followed by the deltas, one line each, in order.
\<close>

theorem transcript_appends_deltas_in_order:
  assumes "h < connects s"
  shows "liveTranscript (run (map (OnMessage h) ms) s) =
           liveTranscript s @
             concat (map (\<lambda>t. CHR 0x0A # t)
               (filter (\<lambda>t. t \<noteq> []) (List.map_filter first_part_text ms))) \<and>
         ((\<forall>t\<in>set ts. t \<noteq> [] \<and> CHR 0x0A \<notin> set t) \<longrightarrow>
          split_lines (liveTranscript (run (map (OnMessage h) (map (\<lambda>t. text_message [t]) ts)) s))
            = split_lines (liveTranscript s) @ ts)"
proof (intro conjI impI)
  show "liveTranscript (run (map (OnMessage h) ms) s) =
           liveTranscript s @
             concat (map (\<lambda>t. CHR 0x0A # t)
               (filter (\<lambda>t. t \<noteq> []) (List.map_filter first_part_text ms)))"
    using assms by (rule liveTranscript_run_OnMessage)
next
  assume a: "\<forall>t\<in>set ts. t \<noteq> [] \<and> CHR 0x0A \<notin> set t"
  then have f: "filter (\<lambda>t. t \<noteq> []) ts = ts"
    by (simp add: filter_id_conv)
  from a have n: "\<forall>t\<in>set ts. CHR 0x0A \<notin> set t"
    by simp
  show "split_lines (liveTranscript (run (map (OnMessage h) (map (\<lambda>t. text_message [t]) ts)) s))
         = split_lines (liveTranscript s) @ ts"
    using assms n
    by (simp only: liveTranscript_run_OnMessage map_filter_text_messages f split_lines_deltas)
qed

theorem transcript_appends_deltas_in_order_witness:
  "split_lines (liveTranscript
     (run (map (OnMessage 0) (map (\<lambda>t. text_message [t]) [''Hi'', '' there'', ''!'']))
        (run [ClickNext, ClickVoiceToggle, ConnectResolved 0, OnOpen 0] initial_app)))
     = [''Connected! Start speaking...'', ''Hi'', '' there'', ''!'']"
proof -
  let ?s = "run [ClickNext, ClickVoiceToggle, ConnectResolved 0, OnOpen 0] initial_app"
  have c: "0 < connects ?s"
    by code_simp
  have t: "\<forall>t\<in>set [''Hi'', '' there'', ''!'']. t \<noteq> [] \<and> CHR 0x0A \<notin> set t"
    by simp
  have l: "split_lines (liveTranscript ?s) = [''Connected! Start speaking...'']"
    by code_simp
  from transcript_appends_deltas_in_order [OF c, of "[]" "[''Hi'', '' there'', ''!'']",
      THEN conjunct2, THEN mp, OF t]
  show ?thesis
    unfolding l by (simp only: append.simps)
qed

text \<open>
  C10, as stated, fails for text that does not come in the first part of a message:
  the handler reads \<open>parts[0]\<close> alone. A message with the parts \<open>Hi\<close>, \<open> there\<close> and
  \<open>!\<close> appends \<open>Hi\<close> only, and a message whose text is in its second part appends
  nothing.
\<close>

theorem later_parts_dropped_counterexample:
  "liveTranscript
     (run [ClickNext, ClickVoiceToggle, ConnectResolved 0, OnOpen 0,
           OnMessage 0 (text_message [''Hi'', '' there'', ''!''])] initial_app)
     = ''Connected! Start speaking...'' @ [CHR 0x0A] @ ''Hi'' \<and>
   liveTranscript
     (run [ClickNext, ClickVoiceToggle, ConnectResolved 0, OnOpen 0,
           OnMessage 0 (parts_message [None, Some ''late''])] initial_app)
     = ''Connected! Start speaking...''"
  by code_simp

text \<open>
  C10, amended. When a connection opens, the transcript becomes the banner, whatever
  it held before, and is therefore not empty. Every later message whose first part
  carries a non-empty text has that text appended after a line feed; a message whose
  first part has no text, or the empty text, changes nothing, and the parts after the
  first are never read. So the transcript of the session is the banner followed by the
  first-part texts received, in order.
\<close>

theorem onopen_overwrites_transcript:
  "liveTranscript (onopen h s) = ''Connected! Start speaking...'' \<and>
   liveTranscript (onopen h s) \<noteq> [] \<and>
   (first_part_text m = Some t \<and> t \<noteq> [] \<longrightarrow>
      liveTranscript (onmessage m s) = liveTranscript s @ [CHR 0x0A] @ t) \<and>
   (first_part_text m = None \<or> first_part_text m = Some [] \<longrightarrow> onmessage m s = s) \<and>
   first_part_text (parts_message (p # ps)) = p \<and>
   onmessage (parts_message (p # ps)) s = onmessage (parts_message [p]) s \<and>
   (h < connects s \<longrightarrow>
      liveTranscript (run (OnOpen h # map (OnMessage h) ms) s) =
        ''Connected! Start speaking...'' @
          concat (map (\<lambda>t. CHR 0x0A # t)
            (filter (\<lambda>t. t \<noteq> []) (List.map_filter first_part_text ms))))"
proof (intro conjI impI)
  show "liveTranscript (onopen h s) = ''Connected! Start speaking...''"
    by (simp add: onopen_def banner_def)
  then show "liveTranscript (onopen h s) \<noteq> []"
    by simp
next
  assume "first_part_text m = Some t \<and> t \<noteq> []"
  then show "liveTranscript (onmessage m s) = liveTranscript s @ [CHR 0x0A] @ t"
    by (simp add: liveTranscript_onmessage)
next
  assume "first_part_text m = None \<or> first_part_text m = Some []"
  then show "onmessage m s = s"
    by (auto simp: onmessage_def)
next
  show p: "first_part_text (parts_message (p # ps)) = p"
    by (simp add: first_part_text_def parts_message_def)
  have "first_part_text (parts_message [p]) = p"
    by (simp add: first_part_text_def parts_message_def)
  with p show "onmessage (parts_message (p # ps)) s = onmessage (parts_message [p]) s"
    by (simp add: onmessage_def)
next
  assume c: "h < connects s"
  then have "h < connects (onopen h s)"
    by (simp add: onopen_def)
  from liveTranscript_run_OnMessage [OF this, of ms] c
  show "liveTranscript (run (OnOpen h # map (OnMessage h) ms) s) =
        ''Connected! Start speaking...'' @
          concat (map (\<lambda>t. CHR 0x0A # t)
            (filter (\<lambda>t. t \<noteq> []) (List.map_filter first_part_text ms)))"
    by (simp add: onopen_def banner_def)
qed

theorem onopen_overwrites_transcript_witness:
  "liveTranscript
     (run [ClickNext, ClickVoiceToggle, ConnectResolved 0, OnOpen 0,
           OnMessage 0 (text_message [''old'']), OnClose 0, ClickVoiceToggle, ConnectResolved 1]
        initial_app) = ''Connected! Start speaking...'' @ [CHR 0x0A] @ ''old'' \<and>
   liveTranscript
     (run (OnOpen 1 # map (OnMessage 1) [text_message [''new'', ''more''], text_message [[]], text_message []])
        (run [ClickNext, ClickVoiceToggle, ConnectResolved 0, OnOpen 0,
              OnMessage 0 (text_message [''old'']), OnClose 0, ClickVoiceToggle, ConnectResolved 1]
           initial_app)) = ''Connected! Start speaking...'' @ [CHR 0x0A] @ ''new''"
proof -
  let ?s = "run [ClickNext, ClickVoiceToggle, ConnectResolved 0, OnOpen 0,
           OnMessage 0 (text_message [''old'']), OnClose 0, ClickVoiceToggle, ConnectResolved 1]
        initial_app"
  have c: "1 < connects ?s"
    by code_simp
  have o: "liveTranscript ?s = ''Connected! Start speaking...'' @ [CHR 0x0A] @ ''old''"
    by code_simp
  have r: "concat (map (\<lambda>t. CHR 0x0A # t) (filter (\<lambda>t. t \<noteq> [])
             (List.map_filter first_part_text
                [text_message [''new'', ''more''], text_message [[]], text_message []])))
           = [CHR 0x0A] @ ''new''"
    by code_simp
  note t = onopen_overwrites_transcript [of 1 ?s _ _ _ _
      "[text_message [''new'', ''more''], text_message [[]], text_message []]"]
  have "liveTranscript
     (run (OnOpen 1 # map (OnMessage 1) [text_message [''new'', ''more''], text_message [[]], text_message []]) ?s)
     = ''Connected! Start speaking...'' @ [CHR 0x0A] @ ''new''"
    using t [THEN conjunct2, THEN conjunct2, THEN conjunct2, THEN conjunct2, THEN conjunct2,
             THEN conjunct2, THEN mp, OF c]
    unfolding r .
  with o show ?thesis
    by (rule conjI)
qed

section \<open>Properties of the session life cycle\<close>

lemmas nav_defs =
  handleNext_def handleBack_def handleGenerate_def
  toggleInterest_def handleDiscoveryAnswer_def

lemmas live_defs =
  startLiveSession_def stopLiveSession_def connect_resolved_def connect_rejected_def
  onopen_def onclose_def onerror_def onmessage_def media_granted_def media_denied_def
  onaudioprocess_def

lemma handleGenerate_settled_live:
  "pipelines (handleGenerate_settled r threw s) = pipelines s \<and>
   connects (handleGenerate_settled r threw s) = connects s \<and>
   closeCalls (handleGenerate_settled r threw s) = closeCalls s"
  by (simp add: handleGenerate_settled_def Let_def split: sum.splits render_verdict.splits)

lemma pipelines_fire: "\<exists>ys. pipelines (fire e s) = pipelines s @ ys"
  by (cases e)
     (auto simp: nav_defs live_defs handleGenerate_settled_live Let_def
           split: option.splits sum.splits)

lemma pipelines_run: "\<exists>ys. pipelines (run es s) = pipelines s @ ys"
proof (induction es arbitrary: s)
  case Nil
  show ?case by simp
next
  case (Cons e es)
  obtain ys where "pipelines (fire e s) = pipelines s @ ys"
    using pipelines_fire by blast
  moreover obtain zs where "pipelines (run es (fire e s)) = pipelines (fire e s) @ zs"
    using Cons.IH by blast
  ultimately show ?case by simp
qed

lemma connects_fire:
  "e \<noteq> ClickVoiceToggle \<Longrightarrow> connects (fire e s) = connects s"
  by (cases e)
     (auto simp: nav_defs live_defs handleGenerate_settled_live Let_def
           split: option.splits sum.splits)

lemma connects_fire_gated:
  "step s = Welcome \<or> step s = Generating \<Longrightarrow> connects (fire e s) = connects s"
  by (cases "e = ClickVoiceToggle") (auto simp: connects_fire toggle_rendered_def)

lemma closeCalls_fire:
  "e \<noteq> ClickVoiceToggle \<Longrightarrow> e \<noteq> ClickPanelClose \<Longrightarrow> closeCalls (fire e s) = closeCalls s"
  by (cases e)
     (auto simp: nav_defs live_defs handleGenerate_settled_live Let_def
           split: option.splits sum.splits)

text \<open>
  C1, as stated, fails: after an inbound error, and likewise after an inbound close, the
  session is no longer active but the capture pipeline built for it is still in place,
  and the next audio block is still encoded and passed to \<open>sendRealtimeInput\<close>.
\<close>

theorem capture_survives_error_counterexample:
  "\<not> isLiveActive
       (run [ClickNext, ClickVoiceToggle, ConnectResolved 0, OnOpen 0, MediaGranted 0, OnError 0]
          initial_app) \<and>
   pipelines
       (run [ClickNext, ClickVoiceToggle, ConnectResolved 0, OnOpen 0, MediaGranted 0, OnError 0]
          initial_app) = [0] \<and>
   length (sent
       (run [ClickNext, ClickVoiceToggle, ConnectResolved 0, OnOpen 0, MediaGranted 0, OnError 0,
             AudioProcess 0 [Fin 1]]
          initial_app)) = 1 \<and>
   \<not> isLiveActive
       (run [ClickNext, ClickVoiceToggle, ConnectResolved 0, OnOpen 0, MediaGranted 0, OnClose 0]
          initial_app) \<and>
   pipelines
       (run [ClickNext, ClickVoiceToggle, ConnectResolved 0, OnOpen 0, MediaGranted 0, OnClose 0]
          initial_app) = [0] \<and>
   length (sent
       (run [ClickNext, ClickVoiceToggle, ConnectResolved 0, OnOpen 0, MediaGranted 0, OnClose 0,
             AudioProcess 0 [Fin 1]]
          initial_app)) = 1"
  by code_simp

text \<open>
  C1, amended. Leaving the active state by an explicit stop, an inbound close or an
  inbound error sets \<open>isLiveActive\<close> to false. The stop calls \<open>close()\<close> on the stored
  session, if there is one; the inbound close clears the stored session; the inbound
  error does neither. None of the three touches the capture pipelines, and no sequence
  of events ever removes one: the pipelines built so far stay, in order, at the front of
  the pipelines of every later state.
\<close>

theorem leaving_active_keeps_capture:
  "\<not> isLiveActive (stopLiveSession s) \<and> \<not> isLiveActive (onclose s) \<and> \<not> isLiveActive (onerror s) \<and>
   closeCalls (stopLiveSession s) = closeCalls s @ (case session s of None \<Rightarrow> [] | Some h \<Rightarrow> [h]) \<and>
   closeCalls (onclose s) = closeCalls s \<and> closeCalls (onerror s) = closeCalls s \<and>
   session (onclose s) = None \<and> session (onerror s) = session s \<and>
   pipelines (stopLiveSession s) = pipelines s \<and>
   pipelines (onclose s) = pipelines s \<and>
   pipelines (onerror s) = pipelines s \<and>
   take (length (pipelines s)) (pipelines (run es s)) = pipelines s"
proof -
  obtain ys where "pipelines (run es s) = pipelines s @ ys"
    using pipelines_run by blast
  then have "take (length (pipelines s)) (pipelines (run es s)) = pipelines s"
    by simp
  then show ?thesis
    by (simp add: live_defs Let_def split: option.splits)
qed

theorem leaving_active_keeps_capture_witness:
  "pipelines (stopLiveSession
      (run [ClickNext, ClickVoiceToggle, ConnectResolved 0, OnOpen 0, MediaGranted 0] initial_app)) = [0] \<and>
   closeCalls (stopLiveSession
      (run [ClickNext, ClickVoiceToggle, ConnectResolved 0, OnOpen 0, MediaGranted 0] initial_app)) = [0] \<and>
   take 1 (pipelines (run [OnError 0, ClickVoiceToggle, ConnectResolved 1, OnOpen 1, MediaGranted 1]
      (run [ClickNext, ClickVoiceToggle, ConnectResolved 0, OnOpen 0, MediaGranted 0] initial_app))) = [0]"
proof -
  let ?s = "run [ClickNext, ClickVoiceToggle, ConnectResolved 0, OnOpen 0, MediaGranted 0] initial_app"
  note t = leaving_active_keeps_capture
    [of ?s "[OnError 0, ClickVoiceToggle, ConnectResolved 1, OnOpen 1, MediaGranted 1]"]
  have p: "pipelines ?s = [0]" and l: "length (pipelines ?s) = 1"
    and c: "closeCalls ?s @ (case session ?s of None \<Rightarrow> [] | Some h \<Rightarrow> [h]) = [0]"
    by code_simp+
  have t1: "pipelines (stopLiveSession ?s) = pipelines ?s"
    using t by blast
  have t2: "closeCalls (stopLiveSession ?s) =
      closeCalls ?s @ (case session ?s of None \<Rightarrow> [] | Some h \<Rightarrow> [h])"
    using t by blast
  have t3: "take (length (pipelines ?s))
      (pipelines (run [OnError 0, ClickVoiceToggle, ConnectResolved 1, OnOpen 1, MediaGranted 1] ?s))
      = pipelines ?s"
    using t by blast
  show ?thesis
    using t1 [unfolded p] t2 [unfolded c] t3 [unfolded l, unfolded p] by (intro conjI)
qed

text \<open>
  C7, as stated, fails in its last part: a stop issued while a session is live calls
  \<open>close()\<close> and clears \<open>isLiveActive\<close>, but the capture pipeline is still there when
  it returns, and the next audio block is still encoded and passed to
  \<open>sendRealtimeInput\<close>.
\<close>

theorem stop_leaves_capture_running_counterexample:
  "closeCalls
       (run [ClickNext, ClickVoiceToggle, ConnectResolved 0, OnOpen 0, MediaGranted 0,
             ClickVoiceToggle] initial_app) = [0] \<and>
   \<not> isLiveActive
       (run [ClickNext, ClickVoiceToggle, ConnectResolved 0, OnOpen 0, MediaGranted 0,
             ClickVoiceToggle] initial_app) \<and>
   pipelines
       (run [ClickNext, ClickVoiceToggle, ConnectResolved 0, OnOpen 0, MediaGranted 0,
             ClickVoiceToggle] initial_app) = [0] \<and>
   length (sent
       (run [ClickNext, ClickVoiceToggle, ConnectResolved 0, OnOpen 0, MediaGranted 0,
             ClickVoiceToggle, AudioProcess 0 [Fin 1]] initial_app)) = 1"
  by code_simp

text \<open>
  C7, amended. \<open>stopLiveSession\<close> can be called in every state and raises nothing. Of
  the React state it changes \<open>isLiveActive\<close> alone, to false, so a second call leaves
  the React state as the first left it; where no session is stored and none is active
  it changes nothing at all. Where a session is stored, also one that has already
  failed or been stopped, each call calls \<open>close()\<close> on it. It leaves the capture
  pipelines and the pending microphone requests as they are.
\<close>

theorem stop_safe_in_every_state:
  "uncaught (stopLiveSession s) = uncaught s \<and>
   console (stopLiveSession s) = console s \<and>
   react_state (stopLiveSession s) = react_state (s\<lparr> isLiveActive := False \<rparr>) \<and>
   react_state (stopLiveSession (stopLiveSession s)) = react_state (stopLiveSession s) \<and>
   (session s = None \<and> \<not> isLiveActive s \<longrightarrow> stopLiveSession s = s) \<and>
   closeCalls (stopLiveSession s) = closeCalls s @ (case session s of None \<Rightarrow> [] | Some h \<Rightarrow> [h]) \<and>
   pipelines (stopLiveSession s) = pipelines s \<and>
   mediaRequests (stopLiveSession s) = mediaRequests s"
  by (simp add: stopLiveSession_def react_state_def Let_def split: option.splits)

theorem stop_safe_in_every_state_witness:
  "stopLiveSession initial_app = initial_app \<and>
   pipelines (stopLiveSession
     (run [ClickNext, ClickVoiceToggle, ConnectResolved 0, OnOpen 0, MediaGranted 0, OnError 0]
        initial_app)) = [0] \<and>
   closeCalls (stopLiveSession
     (run [ClickNext, ClickVoiceToggle, ConnectResolved 0, OnOpen 0, MediaGranted 0, OnError 0]
        initial_app)) = [0]"
proof -
  let ?s = "run [ClickNext, ClickVoiceToggle, ConnectResolved 0, OnOpen 0, MediaGranted 0, OnError 0]
        initial_app"
  have i: "session initial_app = None \<and> \<not> isLiveActive initial_app"
    by code_simp
  have p: "pipelines ?s = [0]"
    and c: "closeCalls ?s @ (case session ?s of None \<Rightarrow> [] | Some h \<Rightarrow> [h]) = [0]"
    by code_simp+
  have t0: "stopLiveSession initial_app = initial_app"
    using stop_safe_in_every_state [of initial_app] i by blast
  have t1: "pipelines (stopLiveSession ?s) = pipelines ?s"
    using stop_safe_in_every_state [of ?s] by blast
  have t2: "closeCalls (stopLiveSession ?s) =
      closeCalls ?s @ (case session ?s of None \<Rightarrow> [] | Some h \<Rightarrow> [h])"
    using stop_safe_in_every_state [of ?s] by blast
  show ?thesis
    using t0 t1 [unfolded p] t2 [unfolded c] by (intro conjI)
qed

text \<open>
  C2, as stated, fails for a session that is still connecting: \<open>isLiveActive\<close> is
  false until the connection opens, so a second click on the toggle calls
  \<open>startLiveSession\<close> again. It opens a second connection, and when both connections
  open, two capture pipelines are built.
\<close>

theorem second_start_while_connecting_counterexample:
  "connects (run [ClickNext, ClickVoiceToggle] initial_app) = 1 \<and>
   \<not> isLiveActive (run [ClickNext, ClickVoiceToggle] initial_app) \<and>
   connects (run [ClickNext, ClickVoiceToggle, ClickVoiceToggle] initial_app) = 2 \<and>
   pipelines
     (run [ClickNext, ClickVoiceToggle, ClickVoiceToggle, ConnectResolved 0, ConnectResolved 1,
           OnOpen 0, OnOpen 1, MediaGranted 0, MediaGranted 1] initial_app) = [0, 1]"
  by code_simp

text \<open>
  C2, amended. While the session is active the toggle calls \<open>stopLiveSession\<close>, never
  \<open>startLiveSession\<close>: a click opens no connection, requests no microphone and builds
  no pipeline. \<open>startLiveSession\<close> itself tests nothing: every call of it opens a
  connection, and so does every click on the rendered toggle while the session is not
  active, also when a connection is already being established.
\<close>

theorem toggle_while_active_only_stops:
  "(isLiveActive s \<longrightarrow>
      fire ClickVoiceToggle s = (if toggle_rendered s then stopLiveSession s else s) \<and>
      connects (fire ClickVoiceToggle s) = connects s \<and>
      mediaRequests (fire ClickVoiceToggle s) = mediaRequests s \<and>
      pipelines (fire ClickVoiceToggle s) = pipelines s) \<and>
   connects (startLiveSession s) = Suc (connects s) \<and>
   (toggle_rendered s \<and> \<not> isLiveActive s \<longrightarrow>
      connects (fire ClickVoiceToggle s) = Suc (connects s))"
  by (simp add: stopLiveSession_def startLiveSession_def Let_def split: option.splits)

theorem toggle_while_active_only_stops_witness:
  "connects (fire ClickVoiceToggle
     (run [ClickNext, ClickVoiceToggle, ConnectResolved 0, OnOpen 0, MediaGranted 0] initial_app)) = 1 \<and>
   pipelines (fire ClickVoiceToggle
     (run [ClickNext, ClickVoiceToggle, ConnectResolved 0, OnOpen 0, MediaGranted 0] initial_app)) = [0]"
proof -
  let ?s = "run [ClickNext, ClickVoiceToggle, ConnectResolved 0, OnOpen 0, MediaGranted 0] initial_app"
  have a: "isLiveActive ?s"
    and c: "connects ?s = 1" and p: "pipelines ?s = [0]"
    by code_simp+
  have t1: "connects (fire ClickVoiceToggle ?s) = connects ?s"
    using toggle_while_active_only_stops [of ?s] a by blast
  have t2: "pipelines (fire ClickVoiceToggle ?s) = pipelines ?s"
    using toggle_while_active_only_stops [of ?s] a by blast
  show ?thesis
    using t1 [unfolded c] t2 [unfolded p] by (intro conjI)
qed

text \<open>
  C3, as stated, fails: a failed connection attempt leaves no state to observe. Neither
  the call of \<open>startLiveSession\<close> nor its \<open>catch\<close> block changes the React state, so
  what the component shows while connecting and after the failure is what it showed
  when idle. Nor is the transcript empty after every failed attempt: it keeps what an
  earlier session left in it.
\<close>

theorem connect_failure_counterexample:
  "react_state (run [ClickNext, ClickVoiceToggle] initial_app)
     = react_state (run [ClickNext] initial_app) \<and>
   react_state (run [ClickNext, ClickVoiceToggle, ConnectRejected 0] initial_app)
     = react_state (run [ClickNext] initial_app) \<and>
   console (run [ClickNext, ClickVoiceToggle, ConnectRejected 0] initial_app)
     = [''Failed to connect to Live API:''] \<and>
   liveTranscript
     (run [ClickNext, ClickVoiceToggle, ConnectResolved 0, OnOpen 0, OnClose 0,
           ClickVoiceToggle, ConnectRejected 1] initial_app)
     = ''Connected! Start speaking...''"
  by code_simp

text \<open>
  C3, amended. A start attempt whose connection fails writes one line to the console
  and changes nothing else: the React state after the attempt, and so the transcript,
  is the React state before it (the transcript is empty afterwards if it was empty
  before), and no microphone request or capture pipeline is added.
\<close>

theorem connect_failure_only_logged:
  "react_state (startLiveSession s) = react_state s \<and>
   react_state (connect_rejected s) = react_state s \<and>
   console (connect_rejected s) = console s @ [''Failed to connect to Live API:''] \<and>
   mediaRequests (connect_rejected (startLiveSession s)) = mediaRequests s \<and>
   pipelines (connect_rejected (startLiveSession s)) = pipelines s \<and>
   (toggle_rendered s \<and> \<not> isLiveActive s \<and> connects s \<notin> set (resolved s) \<longrightarrow>
      run [ClickVoiceToggle, ConnectRejected (connects s)] s = connect_rejected (startLiveSession s) \<and>
      react_state (run [ClickVoiceToggle, ConnectRejected (connects s)] s) = react_state s \<and>
      liveTranscript (run [ClickVoiceToggle, ConnectRejected (connects s)] s) = liveTranscript s)"
  by (simp add: startLiveSession_def connect_rejected_def react_state_def)

theorem connect_failure_only_logged_witness:
  "liveTranscript (run [ClickVoiceToggle, ConnectRejected 0] (run [ClickNext] initial_app)) = [] \<and>
   react_state (run [ClickVoiceToggle, ConnectRejected 0] (run [ClickNext] initial_app))
     = react_state (run [ClickNext] initial_app)"
proof -
  let ?s = "run [ClickNext] initial_app"
  have h: "toggle_rendered ?s \<and> \<not> isLiveActive ?s \<and> connects ?s \<notin> set (resolved ?s)"
    by code_simp
  have c: "connects ?s = 0" and l: "liveTranscript ?s = []"
    by code_simp+
  have t1: "liveTranscript (run [ClickVoiceToggle, ConnectRejected (connects ?s)] ?s) = liveTranscript ?s"
    using connect_failure_only_logged [of ?s] h by blast
  have t2: "react_state (run [ClickVoiceToggle, ConnectRejected (connects ?s)] ?s) = react_state ?s"
    using connect_failure_only_logged [of ?s] h by blast
  show ?thesis
    using t1 [unfolded c, unfolded l] t2 [unfolded c] by (intro conjI)
qed

text \<open>
  C8, as stated, fails for \<open>stopLiveSession\<close>: the close button of the transcript panel
  calls it too, and the panel is rendered whenever a session is active, on every step.
  Here a session is started on the login step, the logo leads back to the welcome step,
  where the toggle is not rendered, and the panel button stops the session.
\<close>

theorem stop_from_panel_on_welcome_counterexample:
  "step (run [ClickNext, ClickVoiceToggle, ConnectResolved 0, OnOpen 0, ClickLogo] initial_app)
     = Welcome \<and>
   \<not> toggle_rendered
       (run [ClickNext, ClickVoiceToggle, ConnectResolved 0, OnOpen 0, ClickLogo] initial_app) \<and>
   isLiveActive
       (run [ClickNext, ClickVoiceToggle, ConnectResolved 0, OnOpen 0, ClickLogo] initial_app) \<and>
   closeCalls
       (run [ClickNext, ClickVoiceToggle, ConnectResolved 0, OnOpen 0, ClickLogo] initial_app) = [] \<and>
   closeCalls
       (run [ClickNext, ClickVoiceToggle, ConnectResolved 0, OnOpen 0, ClickLogo, ClickPanelClose]
          initial_app) = [0] \<and>
   \<not> isLiveActive
       (run [ClickNext, ClickVoiceToggle, ConnectResolved 0, OnOpen 0, ClickLogo, ClickPanelClose]
          initial_app)"
  by code_simp

text \<open>
  C8, amended. The toggle is rendered exactly on the steps other than \<open>welcome\<close> and
  \<open>generating\<close>. In a state on one of these two steps no event opens a connection, and
  in any state no event but a click on the toggle does: \<open>startLiveSession\<close> is called
  from the toggle alone. \<open>close()\<close> is called, that is \<open>stopLiveSession\<close> reaches a
  stored session, by no event but a click on the toggle or on the close button of the
  transcript panel.
\<close>

theorem start_gated_by_wizard_step:
  "toggle_rendered s = (step s \<noteq> Welcome \<and> step s \<noteq> Generating) \<and>
   (step s = Welcome \<or> step s = Generating \<longrightarrow> connects (fire e s) = connects s) \<and>
   (e \<noteq> ClickVoiceToggle \<longrightarrow> connects (fire e s) = connects s) \<and>
   (e \<noteq> ClickVoiceToggle \<and> e \<noteq> ClickPanelClose \<longrightarrow> closeCalls (fire e s) = closeCalls s)"
  using connects_fire [of e s] connects_fire_gated [of s e] closeCalls_fire [of e s]
  by (simp add: toggle_rendered_def)

theorem start_gated_by_wizard_step_witness:
  "connects (fire ClickVoiceToggle initial_app) = 0 \<and>
   connects (fire ClickNext (run [ClickNext, ClickVoiceToggle] initial_app)) = 1"
proof -
  let ?s = "run [ClickNext, ClickVoiceToggle] initial_app"
  have w: "step initial_app = Welcome \<or> step initial_app = Generating"
    by code_simp
  have c0: "connects initial_app = 0" and c1: "connects ?s = 1"
    by code_simp+
  have n: "ClickNext \<noteq> ClickVoiceToggle"
    by simp
  have t1: "connects (fire ClickVoiceToggle initial_app) = connects initial_app"
    using start_gated_by_wizard_step [of initial_app ClickVoiceToggle] w by blast
  have t2: "connects (fire ClickNext ?s) = connects ?s"
    using start_gated_by_wizard_step [of ?s ClickNext] n by blast
  show ?thesis
    using t1 [unfolded c0] t2 [unfolded c1] by (intro conjI)
qed

section \<open>Properties of the outbound audio frames\<close>

lemma fire_AudioProcess_resolved:
  "p < length (pipelines s) \<Longrightarrow> pipelines s ! p \<in> set (resolved s) \<Longrightarrow>
   fire (AudioProcess p b) s = s\<lparr> sent := sent s @ [(pipelines s ! p, encode_block b)] \<rparr>"
  by (simp add: onaudioprocess_def)

lemma sent_run_AudioProcess:
  "p < length (pipelines s) \<Longrightarrow> pipelines s ! p \<in> set (resolved s) \<Longrightarrow>
   sent (run (map (AudioProcess p) blocks) s) =
     sent s @ map (\<lambda>b. (pipelines s ! p, encode_block b)) blocks"
proof (induction blocks arbitrary: s)
  case Nil
  show ?case by simp
next
  case (Cons b blocks)
  let ?s' = "s\<lparr> sent := sent s @ [(pipelines s ! p, encode_block b)] \<rparr>"
  have f: "fire (AudioProcess p b) s = ?s'"
    using Cons.prems by (rule fire_AudioProcess_resolved)
  have "sent (run (map (AudioProcess p) blocks) ?s') =
          sent ?s' @ map (\<lambda>b. (pipelines ?s' ! p, encode_block b)) blocks"
    using Cons.prems by (intro Cons.IH) simp_all
  then show ?case
    by (simp add: f del: fire.simps)
qed

text \<open>
  C6, as stated, fails: the frames carry no sequence number. What is sent is the encoded
  block and the MIME type, so two ticks that capture the same samples send two equal
  payloads, and nothing computed from the payloads can number them 0 and 1.
\<close>

theorem frames_unnumbered_counterexample:
  "sent (run [ClickNext, ClickVoiceToggle, ConnectResolved 0, OnOpen 0, MediaGranted 0,
              AudioProcess 0 [Fin 1], AudioProcess 0 [Fin 1]] initial_app)
     = [(0, \<lparr> data = ''/38='', mimeType = ''audio/pcm;rate=16000'' \<rparr>),
        (0, \<lparr> data = ''/38='', mimeType = ''audio/pcm;rate=16000'' \<rparr>)] \<and>
   \<not> (\<exists>sequenceNumber :: media_payload \<Rightarrow> nat.
          sequenceNumber (snd (sent (run [ClickNext, ClickVoiceToggle, ConnectResolved 0, OnOpen 0,
              MediaGranted 0, AudioProcess 0 [Fin 1], AudioProcess 0 [Fin 1]] initial_app) ! 0)) = 0 \<and>
          sequenceNumber (snd (sent (run [ClickNext, ClickVoiceToggle, ConnectResolved 0, OnOpen 0,
              MediaGranted 0, AudioProcess 0 [Fin 1], AudioProcess 0 [Fin 1]] initial_app) ! 1)) = 1)"
proof -
  let ?r = "run [ClickNext, ClickVoiceToggle, ConnectResolved 0, OnOpen 0, MediaGranted 0,
              AudioProcess 0 [Fin 1], AudioProcess 0 [Fin 1]] initial_app"
  have e: "sent ?r
     = [(0, \<lparr> data = ''/38='', mimeType = ''audio/pcm;rate=16000'' \<rparr>),
        (0, \<lparr> data = ''/38='', mimeType = ''audio/pcm;rate=16000'' \<rparr>)]"
    by code_simp
  have "\<not> (\<exists>sequenceNumber :: media_payload \<Rightarrow> nat.
          sequenceNumber (snd (sent ?r ! 0)) = 0 \<and> sequenceNumber (snd (sent ?r ! 1)) = 1)"
    unfolding e by auto
  with e show ?thesis
    by (rule conjI)
qed

text \<open>
  C6, amended. N audio blocks delivered to a pipeline whose connection has resolved
  cause exactly N calls of \<open>sendRealtimeInput\<close> on that connection, in the order of
  capture, the i-th call carrying the encoding of the i-th block.
\<close>

theorem sends_follow_capture_order:
  "p < length (pipelines s) \<and> pipelines s ! p \<in> set (resolved s) \<longrightarrow>
     sent (run (map (AudioProcess p) blocks) s) =
       sent s @ map (\<lambda>b. (pipelines s ! p, encode_block b)) blocks \<and>
     length (sent (run (map (AudioProcess p) blocks) s)) = length (sent s) + length blocks"
  by (simp add: sent_run_AudioProcess del: fire.simps run.simps)

theorem sends_follow_capture_order_witness:
  "sent (run (map (AudioProcess 0) [[Fin 1], [Fin (- 1), Fin (1 / 2)], []])
      (run [ClickNext, ClickVoiceToggle, ConnectResolved 0, OnOpen 0, MediaGranted 0] initial_app))
     = [(0, \<lparr> data = ''/38='', mimeType = ''audio/pcm;rate=16000'' \<rparr>),
        (0, \<lparr> data = ''AYD/Pw=='', mimeType = ''audio/pcm;rate=16000'' \<rparr>),
        (0, \<lparr> data = [], mimeType = ''audio/pcm;rate=16000'' \<rparr>)]"
proof -
  let ?s = "run [ClickNext, ClickVoiceToggle, ConnectResolved 0, OnOpen 0, MediaGranted 0] initial_app"
  have h: "0 < length (pipelines ?s) \<and> pipelines ?s ! 0 \<in> set (resolved ?s)"
    by code_simp
  have v: "sent ?s @ map (\<lambda>b. (pipelines ?s ! 0, encode_block b)) [[Fin 1], [Fin (- 1), Fin (1 / 2)], []]
     = [(0, \<lparr> data = ''/38='', mimeType = ''audio/pcm;rate=16000'' \<rparr>),
        (0, \<lparr> data = ''AYD/Pw=='', mimeType = ''audio/pcm;rate=16000'' \<rparr>),
        (0, \<lparr> data = [], mimeType = ''audio/pcm;rate=16000'' \<rparr>)]"
    by code_simp
  have "sent (run (map (AudioProcess 0) [[Fin 1], [Fin (- 1), Fin (1 / 2)], []]) ?s) =
       sent ?s @ map (\<lambda>b. (pipelines ?s ! 0, encode_block b)) [[Fin 1], [Fin (- 1), Fin (1 / 2)], []]"
    using sends_follow_capture_order [of 0 ?s "[[Fin 1], [Fin (- 1), Fin (1 / 2)], []]"] h by blast
  then show ?thesis
    unfolding v .
qed

section \<open>Properties of the roadmap generation\<close>














end
